theory Spec2Isabelle
  imports Main "HOL-Library.AList"
begin

section \<open>Data model\<close>

text \<open>
  The workflow executor of \<^verbatim>\<open>workflow-executor.py\<close> (class \<^verbatim>\<open>Generator\<close>) and the
  types of \<^verbatim>\<open>workflow-executor-types.py\<close>.

  Python dictionaries are association lists with distinct keys, written with
  \<^const>\<open>AList.update\<close> (an existing key keeps its position, a new key is appended) and
  read with \<^const>\<open>map_of\<close>. Python sets are lists without duplicates; the iteration
  order of a set is not fixed by Python, the model takes the order of first appearance.
\<close>

datatype Status = PENDING | EXECUTING | COMPLETED | SUCCESS | FAILED | SKIPPED

text \<open>\<^verbatim>\<open>Status.__str__\<close> returns the member's name.\<close>

fun Status_str :: "Status \<Rightarrow> string" where
  "Status_str PENDING = ''PENDING''"
| "Status_str EXECUTING = ''EXECUTING''"
| "Status_str COMPLETED = ''COMPLETED''"
| "Status_str SUCCESS = ''SUCCESS''"
| "Status_str FAILED = ''FAILED''"
| "Status_str SKIPPED = ''SKIPPED''"

text \<open>JSON-compatible values: activity results, error payloads, patch values.
  \<open>JNull\<close> is Python's \<^verbatim>\<open>None\<close>.\<close>

datatype json = JNull | JString string | JObject "(string \<times> json) list"

text \<open>
  Modelled from the spec: the parameter classes \<^verbatim>\<open>CtganParams\<close>, \<^verbatim>\<open>CustomCodeParams\<close>
  and \<^verbatim>\<open>ReportParams\<close> are imported by the types module and are not part of the sources.
  The spec says that the scheduler attaches the node's own key to the params before
  dispatch, so a parameter object is a body together with a \<open>node_name\<close> attribute.
  \<^verbatim>\<open>Node.params\<close> may also stay a plain \<^verbatim>\<open>dict\<close> (an activity id outside the validator's
  table); a \<^verbatim>\<open>dict\<close> has no settable attribute.
\<close>

datatype params = DictParams json | ModelParams "string option" json

record Node =
  activity_id :: string
  params :: params

text \<open>Both endpoints of an edge are \<^verbatim>\<open>Optional[str]\<close> with default \<^verbatim>\<open>None\<close>.\<close>

record Edge =
  from_node :: "string option"
  to_node :: "string option"

record DAG =
  dag_edges :: "Edge list"
  dag_nodes :: "(string \<times> Node) list"

record GeneratorParams =
  dag :: DAG
  data_user_id :: string
  dataset_id :: string
  workflow_id :: string

text \<open>An entry of \<^verbatim>\<open>executed_nodes\<close>: \<^verbatim>\<open>{"status": <name>, "output": <value>}\<close>.
  The code stores the name of the status; names and members correspond one to one.\<close>

record NodeState =
  status :: Status
  node_output :: json

text \<open>A patch operation \<^verbatim>\<open>{"op": ..., "path": ..., "value": ...}\<close>.\<close>

record patch =
  patch_op :: string
  path :: string
  patch_value :: json

datatype error = ActivityError string | KeyError "string option" | AttributeError

text \<open>What an awaited activity call of the host runtime resolves to.\<close>

datatype outcome = Returned json | Raised string

text \<open>
  A coroutine \<^verbatim>\<open>execute_node(key)\<close> is suspended only where it awaits an activity of the
  host runtime. A task is such a coroutine at one of its suspension points, together with
  the local variables it still needs; \<open>Start\<close> is a coroutine handed to
  \<^verbatim>\<open>asyncio.gather\<close> that has not run yet.
\<close>

datatype task =
    Start "string option"
  | AwaitSkippedPatch "string option"
  | AwaitExecutingPatch "string option" Node
  | AwaitActivity "string option"
  | AwaitSuccessPatch "string option"
  | AwaitFailedPatch "string option"

text \<open>The suspension points of the coroutine \<^verbatim>\<open>run\<close> itself.\<close>

datatype main_phase =
    NotStarted
  | AwaitCreate GeneratorParams
  | AwaitRootPatch "string list" "string list"
  | AwaitExecutingStatus "string list"
  | Gathering
  | AwaitFinalStatus
  | Finished

text \<open>
  The attributes of \<^verbatim>\<open>Generator\<close>, followed by the state of the event loop (\<open>tasks\<close>,
  \<open>main\<close>) and by the calls made to the external collaborators so far, in order.
\<close>

record Generator =
  execution_id :: "string option"
  user_id :: "string option"
  nodes :: "(string \<times> Node) list"
  edges :: "Edge list"
  executed_nodes :: "(string option \<times> NodeState) list"
  workflow_failed :: bool
  node_dependencies :: "(string \<times> string option list) list"
  tasks :: "task list"
  main :: main_phase
  create_calls :: "(string \<times> string \<times> string \<times> string) list"
  patch_calls :: "(string option \<times> patch list \<times> string option) list"
  activity_calls :: "(string \<times> params) list"

section \<open>The scheduler\<close>

text \<open>\<^verbatim>\<open>Generator.__init__\<close>.\<close>

definition Generator_init :: Generator where
  "Generator_init =
     \<lparr>execution_id = None, user_id = None, nodes = [], edges = [], executed_nodes = [],
      workflow_failed = False, node_dependencies = [], tasks = [], main = NotStarted,
      create_calls = [], patch_calls = [], activity_calls = []\<rparr>"

text \<open>\<^verbatim>\<open>_precompute_dependencies\<close>: for every node key, the set of the sources of the edges
  that point to it.\<close>

definition precompute_dependencies :: "Generator \<Rightarrow> Generator" where
  "precompute_dependencies s =
     s\<lparr>node_dependencies :=
         map (\<lambda>node. (node, remdups (map from_node (filter (\<lambda>edge. to_node edge = Some node) (edges s)))))
             (map fst (nodes s))\<rparr>"

text \<open>\<^verbatim>\<open>find_root_keys\<close>: \<^verbatim>\<open>set(self.nodes.keys()) - {edge.to_node for edge in self.edges}\<close>.\<close>

definition find_root_keys :: "Generator \<Rightarrow> string list" where
  "find_root_keys s =
     (let all_nodes = map fst (nodes s);
          child_nodes = map to_node (edges s)
      in filter (\<lambda>k. Some k \<notin> set child_nodes) (remdups all_nodes))"

text \<open>\<^verbatim>\<open>determine_final_status\<close>.\<close>

definition determine_final_status :: "Generator \<Rightarrow> Status" where
  "determine_final_status s =
     (let statuses = map (\<lambda>node. status (snd node)) (executed_nodes s)
      in if list_ex (\<lambda>st. st = FAILED) statuses then FAILED
         else if list_ex (\<lambda>st. st = PENDING) statuses then PENDING
         else COMPLETED)"

text \<open>\<^verbatim>\<open>not self.execution_id\<close>: true for \<^verbatim>\<open>None\<close> and for the empty string.\<close>

definition no_execution_id :: "Generator \<Rightarrow> bool" where
  "no_execution_id s = (case execution_id s of None \<Rightarrow> True | Some eid \<Rightarrow> eid = [])"

text \<open>
  The awaited call
  \<^verbatim>\<open>workflow.execute_activity(patch_execution_activity, args=(self.execution_id, patch, self.user_id))\<close>:
  the call is recorded and the caller is suspended on it.
\<close>

definition patch_execution_activity :: "patch list \<Rightarrow> Generator \<Rightarrow> Generator \<times> bool" where
  "patch_execution_activity p s =
     (s\<lparr>patch_calls := patch_calls s @ [(execution_id s, p, user_id s)]\<rparr>, True)"

text \<open>
  \<^verbatim>\<open>update_execution_status\<close> and \<^verbatim>\<open>update_node_output\<close> return the new state and
  whether the caller is now suspended on a patch call.
\<close>

definition update_execution_status :: "Status \<Rightarrow> Generator \<Rightarrow> Generator \<times> bool" where
  "update_execution_status st s =
     (if no_execution_id s then (s, False)
      else patch_execution_activity
             [\<lparr>patch_op = ''replace'', path = ''/status'', patch_value = JString (Status_str st)\<rparr>] s)"

text \<open>The f-string \<^verbatim>\<open>f"/output/{node_key}"\<close>.\<close>

fun key_str :: "string option \<Rightarrow> string" where
  "key_str None = ''None''"
| "key_str (Some k) = k"

definition node_output_patches :: "string option \<Rightarrow> json option \<Rightarrow> Status option \<Rightarrow> patch list" where
  "node_output_patches node_key result st =
     (case result of None \<Rightarrow> []
      | Some r \<Rightarrow> [\<lparr>patch_op = ''add'', path = ''/output/'' @ key_str node_key, patch_value = r\<rparr>])
     @ (case st of None \<Rightarrow> []
        | Some t \<Rightarrow> [\<lparr>patch_op = ''add'', path = ''/output/'' @ key_str node_key @ ''/status'',
                     patch_value = JString (Status_str t)\<rparr>])"

definition update_node_output ::
  "string option \<Rightarrow> json option \<Rightarrow> Status option \<Rightarrow> Generator \<Rightarrow> Generator \<times> bool" where
  "update_node_output node_key result st s =
     (if no_execution_id s then (s, False)
      else patch_execution_activity (node_output_patches node_key result st) s)"

text \<open>A coroutine that is suspended joins the pool of tasks.\<close>

definition suspend :: "task \<Rightarrow> Generator \<Rightarrow> Generator" where
  "suspend t s = s\<lparr>tasks := tasks s @ [t]\<rparr>"

text \<open>\<^verbatim>\<open>_handle_skipped_node\<close>.\<close>

definition skip_result :: json where
  "skip_result = JObject [(''error'', JString ''Skipped due to previous node failure'')]"

definition handle_skipped_node :: "string option \<Rightarrow> Generator \<Rightarrow> Generator" where
  "handle_skipped_node node_key s =
     (let s1 = s\<lparr>executed_nodes :=
                  AList.update node_key \<lparr>status = SKIPPED, node_output = skip_result\<rparr> (executed_nodes s)\<rparr>;
          (s2, suspended) = update_node_output node_key (Some skip_result) (Some SKIPPED) s1
      in if suspended then suspend (AwaitSkippedPatch node_key) s2 else s2)"

text \<open>The call \<^verbatim>\<open>workflow.execute_activity(node.activity_id, node.params, ...)\<close> of
  \<^verbatim>\<open>_process_node_execution\<close>.\<close>

definition dispatch :: "string option \<Rightarrow> Node \<Rightarrow> Generator \<Rightarrow> Generator" where
  "dispatch node_key node s =
     suspend (AwaitActivity node_key)
       (s\<lparr>activity_calls := activity_calls s @ [(activity_id node, params node)]\<rparr>)"

text \<open>
  \<^verbatim>\<open>_process_node_execution\<close> up to its first suspension: \<^verbatim>\<open>self.nodes[node_key]\<close> raises
  \<^verbatim>\<open>KeyError\<close> for a key that is not a node, and \<^verbatim>\<open>node.params.node_name = node_key\<close> raises
  \<^verbatim>\<open>AttributeError\<close> on a plain \<^verbatim>\<open>dict\<close>. The assignment mutates the node held by
  \<^verbatim>\<open>self.nodes\<close>.
\<close>

definition process_node_execution :: "string option \<Rightarrow> Generator \<Rightarrow> error + Generator" where
  "process_node_execution node_key s =
     (case node_key of
        None \<Rightarrow> Inl (KeyError None)
      | Some k \<Rightarrow>
          (case map_of (nodes s) k of
             None \<Rightarrow> Inl (KeyError (Some k))
           | Some node \<Rightarrow>
               (case params node of
                  DictParams d \<Rightarrow> Inl AttributeError
                | ModelParams n b \<Rightarrow>
                    (let node' = node\<lparr>params := ModelParams (Some k) b\<rparr>;
                         s1 = s\<lparr>nodes := AList.update k node' (nodes s)\<rparr>;
                         (s2, suspended) =
                            update_node_output node_key (Some (JObject [])) (Some EXECUTING) s1
                     in if suspended then Inr (suspend (AwaitExecutingPatch node_key node') s2)
                        else Inr (dispatch node_key node' s2)))))"

text \<open>\<^verbatim>\<open>execute_node\<close>.\<close>

definition execute_node :: "string option \<Rightarrow> Generator \<Rightarrow> error + Generator" where
  "execute_node node_key s =
     (if workflow_failed s then Inr (handle_skipped_node node_key s)
      else process_node_execution node_key s)"

text \<open>
  \<^verbatim>\<open>_process_child_nodes\<close>: \<^verbatim>\<open>self._node_dependencies.get(child, set())\<close> is empty for a
  child that is not a key of the index; \<^verbatim>\<open>asyncio.gather\<close> makes one task of each ready
  child. The parent then only waits for them and returns.
\<close>

definition get_dependencies :: "Generator \<Rightarrow> string option \<Rightarrow> string option list" where
  "get_dependencies s child =
     (case child of
        None \<Rightarrow> []
      | Some c \<Rightarrow> (case map_of (node_dependencies s) c of None \<Rightarrow> [] | Some deps \<Rightarrow> deps))"

definition children_of :: "Generator \<Rightarrow> string option \<Rightarrow> string option list" where
  "children_of s node_key =
     remdups (map to_node (filter (\<lambda>edge. from_node edge = node_key) (edges s)))"

definition ready_children :: "Generator \<Rightarrow> string option \<Rightarrow> string option list" where
  "ready_children s node_key =
     filter (\<lambda>child. list_all (\<lambda>dep. dep \<in> set (map fst (executed_nodes s))) (get_dependencies s child))
            (children_of s node_key)"

definition process_child_nodes :: "string option \<Rightarrow> Generator \<Rightarrow> Generator" where
  "process_child_nodes node_key s =
     (if workflow_failed s then s
      else s\<lparr>tasks := tasks s @ map Start (ready_children s node_key)\<rparr>)"

text \<open>\<^verbatim>\<open>_handle_successful_execution\<close>; when the patch call is not made, the coroutine goes on
  to \<^verbatim>\<open>_process_child_nodes\<close> without suspending.\<close>

definition handle_successful_execution :: "string option \<Rightarrow> json \<Rightarrow> Generator \<Rightarrow> Generator" where
  "handle_successful_execution node_key result s =
     (let s1 = s\<lparr>executed_nodes :=
                  AList.update node_key \<lparr>status = SUCCESS, node_output = result\<rparr> (executed_nodes s)\<rparr>;
          (s2, suspended) =
             update_node_output node_key (if result = JNull then None else Some result) (Some SUCCESS) s1
      in if suspended then suspend (AwaitSuccessPatch node_key) s2
         else process_child_nodes node_key s2)"

text \<open>\<^verbatim>\<open>_handle_failed_execution\<close>: the flag is set after the awaited patch call.\<close>

definition handle_failed_execution :: "string option \<Rightarrow> string \<Rightarrow> Generator \<Rightarrow> Generator" where
  "handle_failed_execution node_key msg s =
     (let error_result = JObject [(''error'', JString msg)];
          s1 = s\<lparr>executed_nodes :=
                  AList.update node_key \<lparr>status = FAILED, node_output = error_result\<rparr> (executed_nodes s)\<rparr>;
          (s2, suspended) = update_node_output node_key (Some error_result) (Some FAILED) s1
      in if suspended then suspend (AwaitFailedPatch node_key) s2
         else s2\<lparr>workflow_failed := True\<rparr>)"

text \<open>
  A task resumes with the outcome of the call it awaited and runs to its next suspension
  point or to its end. The \<^verbatim>\<open>try\<close> block of \<^verbatim>\<open>_process_node_execution\<close> covers the activity
  and \<^verbatim>\<open>_handle_successful_execution\<close>; an exception of any other patch call leaves the
  coroutine. A task that was only scheduled (\<open>Start\<close>) awaits nothing: its outcome is
  not read.
\<close>

fun resume :: "task \<Rightarrow> outcome \<Rightarrow> Generator \<Rightarrow> error + Generator" where
  "resume (Start k) oc s = execute_node k s"
| "resume (AwaitSkippedPatch k) (Returned r) s = Inr s"
| "resume (AwaitSkippedPatch k) (Raised m) s = Inl (ActivityError m)"
| "resume (AwaitExecutingPatch k node) (Returned r) s = Inr (dispatch k node s)"
| "resume (AwaitExecutingPatch k node) (Raised m) s = Inl (ActivityError m)"
| "resume (AwaitActivity k) (Returned r) s = Inr (handle_successful_execution k r s)"
| "resume (AwaitActivity k) (Raised m) s = Inr (handle_failed_execution k m s)"
| "resume (AwaitSuccessPatch k) (Returned r) s = Inr (process_child_nodes k s)"
| "resume (AwaitSuccessPatch k) (Raised m) s = Inr (handle_failed_execution k m s)"
| "resume (AwaitFailedPatch k) (Returned r) s = Inr (s\<lparr>workflow_failed := True\<rparr>)"
| "resume (AwaitFailedPatch k) (Raised m) s = Inl (ActivityError m)"

subsection \<open>The top-level run\<close>

text \<open>\<^verbatim>\<open>finalize_execution\<close>, then \<^verbatim>\<open>run\<close> returns \<^verbatim>\<open>self.executed_nodes\<close>.\<close>

definition finalize_execution :: "Generator \<Rightarrow> Generator" where
  "finalize_execution s =
     (let final_status = determine_final_status s;
          (s1, suspended) = update_execution_status final_status s
      in if suspended then s1\<lparr>main := AwaitFinalStatus\<rparr> else s1\<lparr>main := Finished\<rparr>)"

text \<open>The \<^verbatim>\<open>gather\<close> of \<^verbatim>\<open>process_root_nodes\<close> is over when no task is left: every
  \<^verbatim>\<open>execute_node\<close> waits for the tasks it started and does nothing after them.\<close>

definition join :: "Generator \<Rightarrow> Generator" where
  "join s = (if main s = Gathering \<and> tasks s = [] then finalize_execution s else s)"

definition gather_roots :: "string list \<Rightarrow> Generator \<Rightarrow> Generator" where
  "gather_roots root_keys s = join (s\<lparr>main := Gathering, tasks := map (\<lambda>k. Start (Some k)) root_keys\<rparr>)"

definition set_executing :: "string list \<Rightarrow> Generator \<Rightarrow> Generator" where
  "set_executing root_keys s =
     (let (s1, suspended) = update_execution_status EXECUTING s
      in if suspended then s1\<lparr>main := AwaitExecutingStatus root_keys\<rparr> else gather_roots root_keys s1)"

text \<open>\<^verbatim>\<open>initialize_root_nodes\<close>: the loop over the root keys, one awaited patch call each,
  followed by the rest of \<^verbatim>\<open>process_root_nodes\<close>.\<close>

fun initialize_root_nodes :: "string list \<Rightarrow> string list \<Rightarrow> Generator \<Rightarrow> Generator" where
  "initialize_root_nodes [] root_keys s = set_executing root_keys s"
| "initialize_root_nodes (key # rest) root_keys s =
     (let (s1, suspended) = update_node_output (Some key) (Some (JObject [])) (Some PENDING) s
      in if suspended then s1\<lparr>main := AwaitRootPatch rest root_keys\<rparr>
         else initialize_root_nodes rest root_keys s1)"

definition process_root_nodes :: "Generator \<Rightarrow> Generator" where
  "process_root_nodes s = (let root_keys = find_root_keys s in initialize_root_nodes root_keys root_keys s)"

text \<open>\<^verbatim>\<open>run\<close> on a fresh \<^verbatim>\<open>Generator\<close>: \<^verbatim>\<open>initialize_execution\<close> calls the record-creation
  activity and awaits it.\<close>

definition run :: "GeneratorParams \<Rightarrow> Generator" where
  "run data =
     Generator_init\<lparr>main := AwaitCreate data,
                    create_calls := [(workflow_id data, dataset_id data, Status_str PENDING, data_user_id data)]\<rparr>"

text \<open>The rest of \<^verbatim>\<open>initialize_execution\<close> once the record exists, then
  \<^verbatim>\<open>process_root_nodes\<close>.\<close>

definition initialize_execution :: "GeneratorParams \<Rightarrow> string \<Rightarrow> Generator \<Rightarrow> Generator" where
  "initialize_execution data eid s =
     process_root_nodes
       (precompute_dependencies
          (s\<lparr>execution_id := Some eid, user_id := Some (data_user_id data),
             nodes := dag_nodes (dag data), edges := dag_edges (dag data)\<rparr>))"

text \<open>
  Modelled from the spec: the record-creation activity is not part of the sources; it
  returns \<^verbatim>\<open>{executionId}\<close> or raises. \<open>Created eid\<close> is its answer with that id,
  \<open>CreateFailed\<close> the \<^verbatim>\<open>ActivityError\<close> that \<^verbatim>\<open>initialize_execution\<close> logs and raises again.
  \<open>MainPatch\<close> resolves the patch call that \<^verbatim>\<open>run\<close> awaits, \<open>Resume\<close> the call that a
  task awaits.
\<close>

datatype event =
    Created string
  | CreateFailed string
  | MainPatch outcome
  | Resume task outcome

text \<open>
  One turn of the event loop; \<open>None\<close> when the event cannot happen in this state. Any
  pending task may be resumed next. This covers every order in which the host runtime can
  deliver the answers of the activities; \<^verbatim>\<open>asyncio\<close> itself runs a newly gathered task
  before it handles the next answer, as the schedules of the scenarios below do.
\<close>

definition fire :: "event \<Rightarrow> Generator \<Rightarrow> (error + Generator) option" where
  "fire e s =
     (case e of
        Created eid \<Rightarrow>
          (case main s of AwaitCreate data \<Rightarrow> Some (Inr (initialize_execution data eid s)) | _ \<Rightarrow> None)
      | CreateFailed m \<Rightarrow>
          (case main s of AwaitCreate data \<Rightarrow> Some (Inl (ActivityError m)) | _ \<Rightarrow> None)
      | MainPatch oc \<Rightarrow>
          (case main s of
             AwaitRootPatch rest root_keys \<Rightarrow>
               (case oc of Returned r \<Rightarrow> Some (Inr (initialize_root_nodes rest root_keys s))
                | Raised m \<Rightarrow> Some (Inl (ActivityError m)))
           | AwaitExecutingStatus root_keys \<Rightarrow>
               (case oc of Returned r \<Rightarrow> Some (Inr (gather_roots root_keys s))
                | Raised m \<Rightarrow> Some (Inl (ActivityError m)))
           | AwaitFinalStatus \<Rightarrow>
               (case oc of Returned r \<Rightarrow> Some (Inr (s\<lparr>main := Finished\<rparr>))
                | Raised m \<Rightarrow> Some (Inl (ActivityError m)))
           | _ \<Rightarrow> None)
      | Resume t oc \<Rightarrow>
          (if t \<in> set (tasks s)
           then Some (map_sum id join (resume t oc (s\<lparr>tasks := remove1 t (tasks s)\<rparr>)))
           else None))"

text \<open>A schedule is a list of events; an exception that leaves a coroutine ends the run.\<close>

fun fires :: "event list \<Rightarrow> Generator \<Rightarrow> (error + Generator) option" where
  "fires [] s = Some (Inr s)"
| "fires (e # es) s =
     (case fire e s of
        None \<Rightarrow> None
      | Some (Inl err) \<Rightarrow> Some (Inl err)
      | Some (Inr s') \<Rightarrow> fires es s')"

section \<open>Scenarios\<close>

text \<open>Graphs and collaborator answers used to run the scheduler on concrete inputs.\<close>

definition node_of :: "string \<Rightarrow> Node" where
  "node_of a = \<lparr>activity_id = a, params = ModelParams None (JObject [])\<rparr>"

definition named :: "string \<Rightarrow> string \<Rightarrow> Node" where
  "named a k = \<lparr>activity_id = a, params = ModelParams (Some k) (JObject [])\<rparr>"

definition edge :: "string \<Rightarrow> string \<Rightarrow> Edge" where
  "edge a b = \<lparr>from_node = Some a, to_node = Some b\<rparr>"

definition params_of :: "Edge list \<Rightarrow> string list \<Rightarrow> GeneratorParams" where
  "params_of es ks =
     \<lparr>dag = \<lparr>dag_edges = es, dag_nodes = map (\<lambda>k. (k, node_of ''report'')) ks\<rparr>,
      data_user_id = ''user'', dataset_id = ''dataset'', workflow_id = ''workflow''\<rparr>"

definition ack :: outcome where
  "ack = Returned JNull"

definition final_state :: "event list \<Rightarrow> Generator \<Rightarrow> Generator" where
  "final_state es s = (case fires es s of Some (Inr s') \<Rightarrow> s' | _ \<Rightarrow> s)"

text \<open>What is read off a run: the phase of \<^verbatim>\<open>run\<close>, the status recorded for each key, and
  the node names of the dispatched activities, in order.\<close>

definition summary ::
  "(error + Generator) option \<Rightarrow>
     (error + main_phase \<times> (string option \<times> Status) list \<times> string option list) option" where
  "summary r =
     map_option (map_sum id (\<lambda>s.
        (main s,
         map (\<lambda>entry. (fst entry, status (snd entry))) (executed_nodes s),
         map (\<lambda>call. case snd call of ModelParams n b \<Rightarrow> n | DictParams d \<Rightarrow> None) (activity_calls s)))) r"

text \<open>Scenario B of the spec: \<open>a\<close> is the only root, \<open>b\<close> and \<open>c\<close> depend on it, and the
  operation of \<open>a\<close> raises.\<close>

definition scenario_B :: GeneratorParams where
  "scenario_B = params_of [edge ''a'' ''b'', edge ''a'' ''c''] [''a'', ''b'', ''c'']"

definition schedule_B :: "event list" where
  "schedule_B =
     [Created ''e1'', MainPatch ack, MainPatch ack,
      Resume (Start (Some ''a'')) ack,
      Resume (AwaitExecutingPatch (Some ''a'') (named ''report'' ''a'')) ack,
      Resume (AwaitActivity (Some ''a'')) (Raised ''boom''),
      Resume (AwaitFailedPatch (Some ''a'')) ack,
      MainPatch ack]"

text \<open>Two roots \<open>x\<close> and \<open>y\<close> and a child \<open>z\<close> of \<open>x\<close>: \<open>y\<close> fails while \<open>x\<close> is
  running, then \<open>x\<close> succeeds.\<close>

definition bystander :: GeneratorParams where
  "bystander = params_of [edge ''x'' ''z''] [''x'', ''y'', ''z'']"

definition bystander_schedule :: "event list" where
  "bystander_schedule =
     [Created ''e1'', MainPatch ack, MainPatch ack, MainPatch ack,
      Resume (Start (Some ''x'')) ack,
      Resume (Start (Some ''y'')) ack,
      Resume (AwaitExecutingPatch (Some ''x'') (named ''report'' ''x'')) ack,
      Resume (AwaitExecutingPatch (Some ''y'') (named ''report'' ''y'')) ack,
      Resume (AwaitActivity (Some ''y'')) (Raised ''boom''),
      Resume (AwaitFailedPatch (Some ''y'')) ack,
      Resume (AwaitActivity (Some ''x'')) (Returned (JString ''done'')),
      Resume (AwaitSuccessPatch (Some ''x'')) ack,
      MainPatch ack]"

text \<open>A diamond: \<open>d\<close> depends on \<open>b\<close> and \<open>c\<close>, which both depend on \<open>a\<close>. In the
  schedule the operations of \<open>b\<close> and \<open>c\<close> both return before either of their SUCCESS
  patches is acknowledged.\<close>

definition diamond :: GeneratorParams where
  "diamond = params_of [edge ''a'' ''b'', edge ''a'' ''c'', edge ''b'' ''d'', edge ''c'' ''d'']
                       [''a'', ''b'', ''c'', ''d'']"

definition diamond_schedule :: "event list" where
  "diamond_schedule =
     [Created ''e1'', MainPatch ack, MainPatch ack,
      Resume (Start (Some ''a'')) ack,
      Resume (AwaitExecutingPatch (Some ''a'') (named ''report'' ''a'')) ack,
      Resume (AwaitActivity (Some ''a'')) (Returned (JString ''done'')),
      Resume (AwaitSuccessPatch (Some ''a'')) ack,
      Resume (Start (Some ''b'')) ack,
      Resume (Start (Some ''c'')) ack,
      Resume (AwaitExecutingPatch (Some ''b'') (named ''report'' ''b'')) ack,
      Resume (AwaitExecutingPatch (Some ''c'') (named ''report'' ''c'')) ack,
      Resume (AwaitActivity (Some ''b'')) (Returned (JString ''done'')),
      Resume (AwaitActivity (Some ''c'')) (Returned (JString ''done'')),
      Resume (AwaitSuccessPatch (Some ''b'')) ack,
      Resume (Start (Some ''d'')) ack,
      Resume (AwaitSuccessPatch (Some ''c'')) ack,
      Resume (Start (Some ''d'')) ack,
      Resume (AwaitExecutingPatch (Some ''d'') (named ''report'' ''d'')) ack,
      Resume (AwaitExecutingPatch (Some ''d'') (named ''report'' ''d'')) ack,
      Resume (AwaitActivity (Some ''d'')) (Returned (JString ''done'')),
      Resume (AwaitActivity (Some ''d'')) (Returned (JString ''done'')),
      Resume (AwaitSuccessPatch (Some ''d'')) ack,
      Resume (AwaitSuccessPatch (Some ''d'')) ack,
      MainPatch ack]"



text \<open>The diamond after \<open>a\<close> and \<open>b\<close> succeeded and \<open>c\<close> failed, before the flag is set.\<close>

definition after_c_failed :: Generator where
  "after_c_failed =
     precompute_dependencies
       (Generator_init
          \<lparr>nodes := dag_nodes (dag diamond), edges := dag_edges (dag diamond),
           executed_nodes :=
             [(Some ''a'', \<lparr>status = SUCCESS, node_output = JNull\<rparr>),
              (Some ''c'', \<lparr>status = FAILED, node_output = JNull\<rparr>),
              (Some ''b'', \<lparr>status = SUCCESS, node_output = JNull\<rparr>)]\<rparr>)"


section \<open>Run invariants\<close>

text \<open>
  A task of key \<open>k\<close> is early when the operation of \<open>k\<close> has not answered yet. A state is
  quiet for \<open>k\<close> when no edge points to \<open>k\<close> and no task of \<open>k\<close> is early: then the
  operation of \<open>k\<close> cannot answer any more.
\<close>

fun early :: "string option \<Rightarrow> task \<Rightarrow> bool" where
  "early k (Start j) = (j = k)"
| "early k (AwaitExecutingPatch j n) = (j = k)"
| "early k (AwaitActivity j) = (j = k)"
| "early k t = False"

definition quiet :: "string option \<Rightarrow> Generator \<Rightarrow> bool" where
  "quiet k s \<longleftrightarrow> k \<notin> to_node ` set (edges s) \<and> (\<forall>t \<in> set (tasks s). \<not> early k t)"

text \<open>The phases of a run of scenario B: before the tasks start, while the only task is an
  early task of \<open>a\<close>, after the operation of \<open>a\<close> returned, and after it raised \<open>msg\<close>
  (before and after the failure is persisted). \<open>inv_B\<close> relates the phase to the events
  fired so far.\<close>

definition failed_state :: "string \<Rightarrow> NodeState" where
  "failed_state msg = \<lparr>status = FAILED, node_output = JObject [(''error'', JString msg)]\<rparr>"

definition status_patch :: "Status \<Rightarrow> patch list" where
  "status_patch st = [\<lparr>patch_op = ''replace'', path = ''/status'', patch_value = JString (Status_str st)\<rparr>]"

definition pre_B :: "Generator \<Rightarrow> bool" where
  "pre_B s \<longleftrightarrow>
     tasks s = [] \<and> executed_nodes s = [] \<and> \<not> workflow_failed s
     \<and> (main s = AwaitCreate scenario_B
         \<or> edges s = dag_edges (dag scenario_B)
            \<and> (main s = AwaitRootPatch [] [''a''] \<or> main s = AwaitExecutingStatus [''a'']))"

definition early_B :: "Generator \<Rightarrow> bool" where
  "early_B s \<longleftrightarrow>
     main s = Gathering \<and> executed_nodes s = [] \<and> \<not> workflow_failed s
     \<and> edges s = dag_edges (dag scenario_B)
     \<and> (\<exists>t. tasks s = [t] \<and> early (Some ''a'') t)"

definition succeeded_B :: "Generator \<Rightarrow> bool" where
  "succeeded_B s \<longleftrightarrow>
     edges s = dag_edges (dag scenario_B)
     \<and> (\<forall>t \<in> set (tasks s). \<not> early (Some ''a'') t)
     \<and> (main s = Gathering \<or> main s = AwaitFinalStatus \<or> main s = Finished)"

definition failing_B :: "string \<Rightarrow> Generator \<Rightarrow> bool" where
  "failing_B msg s \<longleftrightarrow>
     main s = Gathering \<and> tasks s = [AwaitFailedPatch (Some ''a'')]
     \<and> executed_nodes s = [(Some ''a'', failed_state msg)] \<and> \<not> no_execution_id s"

definition failed_B :: "string \<Rightarrow> Generator \<Rightarrow> bool" where
  "failed_B msg s \<longleftrightarrow>
     tasks s = [] \<and> executed_nodes s = [(Some ''a'', failed_state msg)]
     \<and> (main s = AwaitFinalStatus \<or> main s = Finished)
     \<and> (no_execution_id s
         \<or> patch_calls s \<noteq> [] \<and> last (patch_calls s) = (execution_id s, status_patch FAILED, user_id s))"

definition inv_B :: "event list \<Rightarrow> Generator \<Rightarrow> bool" where
  "inv_B es s \<longleftrightarrow>
     ((pre_B s \<or> early_B s \<or> succeeded_B s)
        \<and> (\<forall>m. Resume (AwaitActivity (Some ''a'')) (Raised m) \<notin> set es))
     \<or> (\<exists>msg. (failing_B msg s \<or> failed_B msg s)
           \<and> (\<forall>m. Resume (AwaitActivity (Some ''a'')) (Raised m) \<in> set es \<longrightarrow> m = msg))"

section \<open>Root keys, final status, persistence guards\<close>

lemma find_root_keys_set:
  "set (find_root_keys s) = fst ` set (nodes s) - {k. Some k \<in> to_node ` set (edges s)}"
  by (auto simp: find_root_keys_def)

text \<open>
  C5: the root keys are the node keys minus the edge targets. A node that is the source
  of an edge and the target of none is a root, and a graph without nodes has no root.
\<close>

theorem find_root_keys_spec:
  "set (find_root_keys s) = fst ` set (nodes s) - {k. Some k \<in> to_node ` set (edges s)}
   \<and> (k \<in> fst ` set (nodes s) \<and> Some k \<in> from_node ` set (edges s)
        \<and> Some k \<notin> to_node ` set (edges s) \<longrightarrow> k \<in> set (find_root_keys s))
   \<and> (nodes s = [] \<longrightarrow> find_root_keys s = [])"
proof (intro conjI impI)
  show "set (find_root_keys s) = fst ` set (nodes s) - {k. Some k \<in> to_node ` set (edges s)}"
    by (rule find_root_keys_set)
next
  assume "k \<in> fst ` set (nodes s) \<and> Some k \<in> from_node ` set (edges s)
            \<and> Some k \<notin> to_node ` set (edges s)"
  then show "k \<in> set (find_root_keys s)"
    by (simp add: find_root_keys_set)
next
  assume "nodes s = []"
  then show "find_root_keys s = []"
    by (simp add: find_root_keys_def)
qed

theorem find_root_keys_spec_witness:
  "set (find_root_keys (Generator_init\<lparr>nodes := [(''a'', node_of ''report''), (''b'', node_of ''report'')],
                                       edges := [edge ''a'' ''b'']\<rparr>)) = {''a''}
   \<and> find_root_keys Generator_init = []"
proof -
  let ?s = "Generator_init\<lparr>nodes := [(''a'', node_of ''report''), (''b'', node_of ''report'')],
                            edges := [edge ''a'' ''b'']\<rparr>"
  have "''a'' \<in> set (find_root_keys ?s)"
    using find_root_keys_spec [of ?s "''a''"] by (simp add: edge_def)
  moreover have "''b'' \<notin> set (find_root_keys ?s)"
    using find_root_keys_spec [of ?s "''a''"] by (simp add: edge_def)
  moreover have "set (find_root_keys ?s) \<subseteq> {''a'', ''b''}"
    using find_root_keys_spec [of ?s "''a''"] by auto
  moreover have "find_root_keys Generator_init = []"
    using find_root_keys_spec [of Generator_init "''a''"] by (simp add: Generator_init_def)
  ultimately show ?thesis by auto
qed

text \<open>
  C6: the final status is FAILED when some recorded node is FAILED, otherwise PENDING
  when some recorded node is PENDING, otherwise COMPLETED; with nothing recorded it is
  COMPLETED.
\<close>

theorem determine_final_status_spec:
  "determine_final_status s =
     (if \<exists>entry \<in> set (executed_nodes s). status (snd entry) = FAILED then FAILED
      else if \<exists>entry \<in> set (executed_nodes s). status (snd entry) = PENDING then PENDING
      else COMPLETED)
   \<and> (executed_nodes s = [] \<longrightarrow> determine_final_status s = COMPLETED)"
proof -
  have ex: "list_ex (\<lambda>st. st = t) (map (\<lambda>node. status (snd node)) (executed_nodes s))
              = (\<exists>entry \<in> set (executed_nodes s). status (snd entry) = t)" for t
    by (auto simp: list_ex_iff)
  show ?thesis
    unfolding determine_final_status_def Let_def ex by simp
qed

theorem determine_final_status_spec_witness:
  "determine_final_status
     (Generator_init\<lparr>executed_nodes :=
        [(Some ''a'', \<lparr>status = SUCCESS, node_output = JNull\<rparr>),
         (Some ''b'', \<lparr>status = FAILED, node_output = JNull\<rparr>),
         (Some ''c'', \<lparr>status = SUCCESS, node_output = JNull\<rparr>)]\<rparr>) = FAILED
   \<and> determine_final_status Generator_init = COMPLETED"
proof -
  let ?s = "Generator_init\<lparr>executed_nodes :=
        [(Some ''a'', \<lparr>status = SUCCESS, node_output = JNull\<rparr>),
         (Some ''b'', \<lparr>status = FAILED, node_output = JNull\<rparr>),
         (Some ''c'', \<lparr>status = SUCCESS, node_output = JNull\<rparr>)]\<rparr>"
  have "determine_final_status ?s = FAILED"
    using determine_final_status_spec [of ?s] by simp
  moreover have "determine_final_status Generator_init = COMPLETED"
    using determine_final_status_spec [of Generator_init] by (simp add: Generator_init_def)
  ultimately show ?thesis by simp
qed

text \<open>
  C10: with no execution id, \<^verbatim>\<open>update_node_output\<close> and \<^verbatim>\<open>update_execution_status\<close>
  return at once: the caller is not suspended and the state, the recorded patch calls
  included, is the one before the call.
\<close>

theorem update_without_execution_id:
  "execution_id s = None \<Longrightarrow>
     update_node_output node_key result st s = (s, False)
     \<and> update_execution_status st' s = (s, False)"
  by (simp add: update_node_output_def update_execution_status_def no_execution_id_def)

theorem update_without_execution_id_witness:
  "execution_id Generator_init = None
   \<and> update_node_output (Some ''a'') (Some (JObject [])) (Some PENDING) Generator_init
       = (Generator_init, False)
   \<and> update_execution_status EXECUTING Generator_init = (Generator_init, False)"
proof -
  have h: "execution_id Generator_init = None"
    by (simp add: Generator_init_def)
  show ?thesis
    using h update_without_execution_id [OF h, of "Some ''a''" "Some (JObject [])" "Some PENDING" EXECUTING]
    by simp
qed

section \<open>Frame lemmas\<close>

lemmas patch_defs =
  update_node_output_def update_execution_status_def patch_execution_activity_def no_execution_id_def

lemma failed_handle_skipped_node: "workflow_failed (handle_skipped_node k s) = workflow_failed s"
  by (simp add: handle_skipped_node_def suspend_def patch_defs Let_def)

lemma failed_process_node_execution:
  "process_node_execution k s = Inr s' \<Longrightarrow> workflow_failed s' = workflow_failed s"
  unfolding process_node_execution_def
  by (auto split: option.splits params.splits if_splits simp: Let_def dispatch_def suspend_def patch_defs)

lemma failed_process_child_nodes: "workflow_failed (process_child_nodes k s) = workflow_failed s"
  by (simp add: process_child_nodes_def)

lemma failed_handle_successful_execution:
  "workflow_failed (handle_successful_execution k r s) = workflow_failed s"
  by (simp add: handle_successful_execution_def patch_defs suspend_def failed_process_child_nodes Let_def)

lemma failed_handle_failed_execution:
  "workflow_failed s \<Longrightarrow> workflow_failed (handle_failed_execution k m s)"
  by (simp add: handle_failed_execution_def patch_defs suspend_def Let_def)

lemma failed_resume: "resume t oc s = Inr s' \<Longrightarrow> workflow_failed s \<Longrightarrow> workflow_failed s'"
  by (cases "(t, oc, s)" rule: resume.cases)
     (auto simp: execute_node_def failed_handle_skipped_node failed_process_node_execution
        dispatch_def suspend_def failed_handle_successful_execution failed_handle_failed_execution
        failed_process_child_nodes split: if_splits)

lemma failed_finalize_execution: "workflow_failed (finalize_execution s) = workflow_failed s"
  by (simp add: finalize_execution_def patch_defs)

lemma failed_join: "workflow_failed (join s) = workflow_failed s"
  by (simp add: join_def failed_finalize_execution)

lemma failed_gather_roots: "workflow_failed (gather_roots ks s) = workflow_failed s"
  by (simp add: gather_roots_def failed_join)

lemma failed_set_executing: "workflow_failed (set_executing ks s) = workflow_failed s"
  by (simp add: set_executing_def patch_defs failed_gather_roots)

lemma failed_initialize_root_nodes:
  "workflow_failed (initialize_root_nodes ks roots s) = workflow_failed s"
  by (induction ks arbitrary: s) (simp_all add: failed_set_executing patch_defs)

lemma failed_initialize_execution:
  "workflow_failed (initialize_execution data eid s) = workflow_failed s"
  by (simp add: initialize_execution_def process_root_nodes_def Let_def failed_initialize_root_nodes
      precompute_dependencies_def)

lemma failed_fire: "fire e s = Some (Inr s') \<Longrightarrow> workflow_failed s \<Longrightarrow> workflow_failed s'"
proof (cases e)
  case (Resume t oc)
  assume f: "fire e s = Some (Inr s')" and w: "workflow_failed s"
  show ?thesis
  proof (cases "resume t oc (s\<lparr>tasks := remove1 t (tasks s)\<rparr>)")
    case (Inl err)
    with f Resume show ?thesis by (simp add: fire_def split: if_splits)
  next
    case (Inr s1)
    with f Resume have "s' = join s1" by (simp add: fire_def split: if_splits)
    moreover have "workflow_failed s1" using failed_resume [OF Inr] w by simp
    ultimately show ?thesis by (simp add: failed_join)
  qed
qed (auto simp: fire_def failed_initialize_execution failed_initialize_root_nodes failed_gather_roots
      split: main_phase.splits outcome.splits)

lemma failed_fires: "fires es s = Some (Inr s') \<Longrightarrow> workflow_failed s \<Longrightarrow> workflow_failed s'"
  by (induction es arbitrary: s) (auto split: option.splits sum.splits dest: failed_fire)

section \<open>Skipping and failing\<close>

text \<open>
  C2: when \<^verbatim>\<open>execute_node\<close> starts with the failure flag set, the node is recorded SKIPPED
  with the fixed message, whatever the edges and the dependency index are. No activity
  is dispatched and the node's params are not touched. The coroutine either is done (no
  execution id) or awaits the patch that persists the record, and returns when that call
  returns.
\<close>

theorem execute_node_skips_when_failed:
  assumes "workflow_failed s"
  shows "\<exists>s'. execute_node node_key s = Inr s'
           \<and> executed_nodes s' =
               AList.update node_key
                 \<lparr>status = SKIPPED,
                  node_output = JObject [(''error'', JString ''Skipped due to previous node failure'')]\<rparr>
                 (executed_nodes s)
           \<and> activity_calls s' = activity_calls s
           \<and> nodes s' = nodes s
           \<and> (if no_execution_id s then tasks s' = tasks s \<and> patch_calls s' = patch_calls s
               else tasks s' = tasks s @ [AwaitSkippedPatch node_key]
                    \<and> patch_calls s' = patch_calls s @
                         [(execution_id s,
                           node_output_patches node_key
                             (Some (JObject [(''error'', JString ''Skipped due to previous node failure'')]))
                             (Some SKIPPED),
                           user_id s)]
                    \<and> resume (AwaitSkippedPatch node_key) (Returned r) s' = Inr s')"
  using assms
  by (simp add: execute_node_def handle_skipped_node_def skip_result_def suspend_def patch_defs Let_def)

theorem execute_node_skips_when_failed_witness:
  "workflow_failed (Generator_init\<lparr>execution_id := Some ''e1'', workflow_failed := True\<rparr>)
   \<and> (\<exists>s'. execute_node (Some ''z'') (Generator_init\<lparr>execution_id := Some ''e1'', workflow_failed := True\<rparr>)
              = Inr s'
            \<and> executed_nodes s' =
                [(Some ''z'',
                  \<lparr>status = SKIPPED,
                   node_output = JObject [(''error'', JString ''Skipped due to previous node failure'')]\<rparr>)]
            \<and> activity_calls s' = []
            \<and> tasks s' = [AwaitSkippedPatch (Some ''z'')])"
proof -
  let ?s = "Generator_init\<lparr>execution_id := Some ''e1'', workflow_failed := True\<rparr>"
  have h: "workflow_failed ?s" by simp
  show ?thesis
    using h execute_node_skips_when_failed [OF h, of "Some ''z''" JNull]
    by (auto simp: Generator_init_def no_execution_id_def)
qed



text \<open>
  C9: the failure flag is false when \<^verbatim>\<open>run\<close> starts, and no event of a run resets it: from
  a state where it is set, every schedule leads to a state where it is set.
\<close>

theorem workflow_failed_is_one_way:
  "\<not> workflow_failed (run data)
   \<and> (fires es s = Some (Inr s') \<and> workflow_failed s \<longrightarrow> workflow_failed s')"
  using failed_fires [of es s s'] by (simp add: run_def Generator_init_def)

theorem workflow_failed_is_one_way_witness:
  "\<not> workflow_failed (run bystander)
   \<and> fires (take 10 bystander_schedule) (run bystander)
       = Some (Inr (final_state (take 10 bystander_schedule) (run bystander)))
   \<and> workflow_failed (final_state (take 10 bystander_schedule) (run bystander))
   \<and> fires (drop 10 bystander_schedule) (final_state (take 10 bystander_schedule) (run bystander))
       = Some (Inr (final_state bystander_schedule (run bystander)))
   \<and> workflow_failed (final_state bystander_schedule (run bystander))"
proof -
  let ?s = "final_state (take 10 bystander_schedule) (run bystander)"
  let ?s' = "final_state bystander_schedule (run bystander)"
  have 1: "fires (take 10 bystander_schedule) (run bystander) = Some (Inr ?s)"
    by code_simp
  have 2: "workflow_failed ?s"
    by code_simp
  have 3: "fires (drop 10 bystander_schedule) ?s = Some (Inr ?s')"
    by code_simp
  show ?thesis
    using 1 2 3 workflow_failed_is_one_way [of bystander "drop 10 bystander_schedule" ?s ?s']
    by simp
qed

section \<open>Children and readiness\<close>

lemma ready_children_set:
  "set (ready_children s k) =
     {child \<in> to_node ` {e \<in> set (edges s). from_node e = k}.
        \<forall>dep \<in> set (get_dependencies s child). dep \<in> fst ` set (executed_nodes s)}"
  by (auto simp: ready_children_def children_of_def list_all_iff)

lemma distinct_ready_children: "distinct (ready_children s k)"
  by (simp add: ready_children_def children_of_def)



text \<open>
  C4, amended: once the SUCCESS record of a node is persisted (or at once, with no
  execution id), the coroutine runs \<^verbatim>\<open>_process_child_nodes\<close>. If the failure flag is set
  by then, nothing is launched. Otherwise one \<^verbatim>\<open>execute_node\<close> task is started for each direct child all of whose indexed
  dependencies are keys of the executed map, and for no other key. Only the keys of the
  executed map are read, never the recorded status.
\<close>

theorem children_launched_after_success:
  "resume (AwaitSuccessPatch node_key) (Returned r) s = Inr (process_child_nodes node_key s)
   \<and> (no_execution_id s \<longrightarrow>
        resume (AwaitActivity node_key) (Returned r) s
          = Inr (process_child_nodes node_key
                   (s\<lparr>executed_nodes :=
                        AList.update node_key \<lparr>status = SUCCESS, node_output = r\<rparr> (executed_nodes s)\<rparr>)))
   \<and> (workflow_failed s \<longrightarrow> process_child_nodes node_key s = s)
   \<and> (\<not> workflow_failed s \<longrightarrow>
        (\<exists>launched.
           process_child_nodes node_key s = s\<lparr>tasks := tasks s @ map Start launched\<rparr>
           \<and> distinct launched
           \<and> set launched =
               {child \<in> to_node ` {e \<in> set (edges s). from_node e = node_key}.
                  \<forall>dep \<in> set (get_dependencies s child). dep \<in> fst ` set (executed_nodes s)}))"
proof (intro conjI impI)
  assume "\<not> workflow_failed s"
  then have "process_child_nodes node_key s = s\<lparr>tasks := tasks s @ map Start (ready_children s node_key)\<rparr>"
    by (simp add: process_child_nodes_def)
  then show "\<exists>launched.
           process_child_nodes node_key s = s\<lparr>tasks := tasks s @ map Start launched\<rparr>
           \<and> distinct launched
           \<and> set launched =
               {child \<in> to_node ` {e \<in> set (edges s). from_node e = node_key}.
                  \<forall>dep \<in> set (get_dependencies s child). dep \<in> fst ` set (executed_nodes s)}"
    using distinct_ready_children ready_children_set by blast
next
  assume "no_execution_id s"
  then show "resume (AwaitActivity node_key) (Returned r) s
          = Inr (process_child_nodes node_key
                   (s\<lparr>executed_nodes :=
                        AList.update node_key \<lparr>status = SUCCESS, node_output = r\<rparr> (executed_nodes s)\<rparr>))"
    by (simp add: handle_successful_execution_def Let_def patch_defs)
qed (simp_all add: process_child_nodes_def)

lemma distinct_set_single:
  assumes "distinct xs" and "set xs = {x}"
  shows "xs = [x]"
proof (cases xs)
  case Nil
  with assms(2) show ?thesis by simp
next
  case (Cons y ys)
  with assms(2) have y: "y = x" and sub: "set ys \<subseteq> {x}" by auto
  from Cons assms(1) y have "x \<notin> set ys" by simp
  with sub have "ys = []" by (cases ys) auto
  with Cons y show ?thesis by simp
qed

theorem children_launched_after_success_witness:
  "\<not> workflow_failed after_c_failed
   \<and> tasks (process_child_nodes (Some ''b'') after_c_failed) = [Start (Some ''d'')]
   \<and> workflow_failed (after_c_failed\<lparr>workflow_failed := True\<rparr>)
   \<and> tasks (process_child_nodes (Some ''b'') (after_c_failed\<lparr>workflow_failed := True\<rparr>)) = []"
proof -
  have nf: "\<not> workflow_failed after_c_failed"
    by code_simp
  have t: "tasks after_c_failed = []"
    by code_simp
  have rc: "ready_children after_c_failed (Some ''b'') = [Some ''d'']"
    by code_simp
  from children_launched_after_success [of "Some ''b''" JNull after_c_failed] nf
  obtain launched where l: "process_child_nodes (Some ''b'') after_c_failed
        = after_c_failed\<lparr>tasks := tasks after_c_failed @ map Start launched\<rparr>"
      "distinct launched"
      "set launched = {child \<in> to_node ` {e \<in> set (edges after_c_failed). from_node e = Some ''b''}.
              \<forall>dep \<in> set (get_dependencies after_c_failed child).
                 dep \<in> fst ` set (executed_nodes after_c_failed)}"
    by blast
  from l(3) have "set launched = set (ready_children after_c_failed (Some ''b''))"
    by (simp only: ready_children_set)
  then have "set launched = {Some ''d''}"
    by (simp only: rc list.set)
  with l(2) have "launched = [Some ''d'']"
    by (rule distinct_set_single)
  with l(1) t have a: "tasks (process_child_nodes (Some ''b'') after_c_failed) = [Start (Some ''d'')]"
    by simp
  have "process_child_nodes (Some ''b'') (after_c_failed\<lparr>workflow_failed := True\<rparr>)
          = after_c_failed\<lparr>workflow_failed := True\<rparr>"
    using children_launched_after_success [of "Some ''b''" JNull "after_c_failed\<lparr>workflow_failed := True\<rparr>"]
    by simp
  then have b: "tasks (process_child_nodes (Some ''b'') (after_c_failed\<lparr>workflow_failed := True\<rparr>)) = []"
    using t by simp
  show ?thesis using nf a b by simp
qed

text \<open>
  The claim as stated fails where the flag is set: in this finished run \<open>x\<close> is recorded
  SUCCESS and \<open>z\<close> is a direct child of \<open>x\<close> whose only dependency \<open>x\<close> is recorded, yet
  \<open>z\<close> has no record and no activity was dispatched for it.
\<close>

theorem children_not_launched_counterexample:
  "summary (fires bystander_schedule (run bystander))
     = Some (Inr (Finished, [(Some ''y'', FAILED), (Some ''x'', SUCCESS)], [Some ''x'', Some ''y'']))
   \<and> ready_children (final_state bystander_schedule (run bystander)) (Some ''x'') = [Some ''z'']"
  by code_simp

section \<open>Edges with a missing endpoint\<close>




section \<open>Scenario B: the only root fails\<close>

lemma fires_snoc:
  "fires (es @ [e]) s = Some (Inr s') \<Longrightarrow> \<exists>s1. fires es s = Some (Inr s1) \<and> fire e s1 = Some (Inr s')"
  by (induction es arbitrary: s) (auto split: option.splits sum.splits)

lemma roots_B:
  "find_root_keys (precompute_dependencies
      (s\<lparr>execution_id := Some eid, user_id := Some (data_user_id scenario_B),
         nodes := dag_nodes (dag scenario_B), edges := dag_edges (dag scenario_B)\<rparr>)) = [''a'']"
  by (simp add: find_root_keys_def precompute_dependencies_def scenario_B_def params_of_def edge_def)

lemma pre_B_step:
  assumes "pre_B s" and "fire e s = Some (Inr s')"
  shows "(pre_B s' \<or> early_B s') \<and> (\<forall>m. e \<noteq> Resume (AwaitActivity (Some ''a'')) (Raised m))"
proof (cases e)
  case (Created eid)
  with assms have m: "main s = AwaitCreate scenario_B"
      and s': "s' = initialize_execution scenario_B eid s"
    by (auto simp: fire_def pre_B_def split: main_phase.splits)
  from assms(1) have "pre_B s' \<or> early_B s'"
    unfolding s' initialize_execution_def process_root_nodes_def Let_def roots_B
    by (simp add: pre_B_def early_B_def precompute_dependencies_def patch_defs set_executing_def
        gather_roots_def join_def)
  with Created show ?thesis by simp
next
  case (CreateFailed m)
  with assms show ?thesis by (auto simp: fire_def split: main_phase.splits)
next
  case (MainPatch oc)
  with assms have "pre_B s' \<or> early_B s'"
    by (auto simp: fire_def pre_B_def early_B_def set_executing_def gather_roots_def join_def patch_defs
        split: main_phase.splits outcome.splits if_splits)
  with MainPatch show ?thesis by simp
next
  case (Resume t oc)
  with assms show ?thesis by (simp add: fire_def pre_B_def)
qed


lemma ready_children_targets: "c \<in> set (ready_children s k) \<Longrightarrow> c \<in> to_node ` set (edges s)"
  by (auto simp: ready_children_def children_of_def)

lemma a_not_target_B: "Some ''a'' \<notin> to_node ` set (dag_edges (dag scenario_B))"
  by (simp add: scenario_B_def params_of_def edge_def)

lemma main_process_child_nodes: "main (process_child_nodes j s) = main s"
  by (simp add: process_child_nodes_def)

lemma main_handle_successful_execution: "main (handle_successful_execution j r s) = main s"
  by (simp add: handle_successful_execution_def Let_def patch_defs suspend_def main_process_child_nodes)

lemma main_handle_failed_execution: "main (handle_failed_execution j m s) = main s"
  by (simp add: handle_failed_execution_def Let_def patch_defs suspend_def)

lemma main_handle_skipped_node: "main (handle_skipped_node j s) = main s"
  by (simp add: handle_skipped_node_def Let_def patch_defs suspend_def)

lemma main_process_node_execution: "process_node_execution j s = Inr s' \<Longrightarrow> main s' = main s"
  by (auto simp: process_node_execution_def Let_def patch_defs suspend_def dispatch_def
      split: option.splits params.splits if_splits)

lemma main_resume: "resume t oc s = Inr s' \<Longrightarrow> main s' = main s"
  by (cases "(t, oc, s)" rule: resume.cases)
     (auto simp: execute_node_def main_handle_skipped_node main_process_node_execution dispatch_def
        suspend_def main_handle_successful_execution main_handle_failed_execution
        main_process_child_nodes split: if_splits)

lemma quiet_process_child_nodes: "quiet k s \<Longrightarrow> quiet k (process_child_nodes j s)"
  by (auto simp: quiet_def process_child_nodes_def dest: ready_children_targets)

lemma quiet_executed [simp]: "quiet k (s\<lparr>executed_nodes := x\<rparr>) = quiet k s"
  by (simp add: quiet_def)

lemma quiet_patch_calls [simp]: "quiet k (s\<lparr>patch_calls := x\<rparr>) = quiet k s"
  by (simp add: quiet_def)

lemma quiet_suspend: "quiet k s \<Longrightarrow> \<not> early k t \<Longrightarrow> quiet k (suspend t s)"
  by (simp add: quiet_def suspend_def)

lemma quiet_handle_successful_execution: "quiet k s \<Longrightarrow> quiet k (handle_successful_execution j r s)"
  by (simp add: handle_successful_execution_def Let_def patch_defs quiet_suspend quiet_process_child_nodes)

lemma quiet_handle_failed_execution: "quiet k s \<Longrightarrow> quiet k (handle_failed_execution j m s)"
  by (simp add: handle_failed_execution_def Let_def patch_defs quiet_suspend) (simp add: quiet_def)

lemma quiet_handle_skipped_node: "quiet k s \<Longrightarrow> quiet k (handle_skipped_node j s)"
  by (simp add: handle_skipped_node_def Let_def patch_defs quiet_suspend)

lemma quiet_process_node_execution:
  "process_node_execution j s = Inr s' \<Longrightarrow> j \<noteq> k \<Longrightarrow> quiet k s \<Longrightarrow> quiet k s'"
  by (auto simp: process_node_execution_def Let_def patch_defs suspend_def dispatch_def quiet_def
      split: option.splits params.splits if_splits)

lemma quiet_resume: "resume t oc s = Inr s' \<Longrightarrow> \<not> early k t \<Longrightarrow> quiet k s \<Longrightarrow> quiet k s'"
proof (cases "(t, oc, s)" rule: resume.cases)
  case (1 j oc' s0)
  assume "resume t oc s = Inr s'" "\<not> early k t" "quiet k s"
  with 1 show ?thesis
    by (auto simp: execute_node_def quiet_handle_skipped_node split: if_splits
        dest: quiet_process_node_execution)
qed (auto simp: quiet_handle_successful_execution quiet_handle_failed_execution quiet_process_child_nodes
       dispatch_def quiet_suspend, auto simp: quiet_def suspend_def)

lemma join_frame:
  "tasks (join s) = tasks s" "edges (join s) = edges s" "executed_nodes (join s) = executed_nodes s"
  "main (join s) = main s \<or> main s = Gathering \<and> (main (join s) = AwaitFinalStatus \<or> main (join s) = Finished)"
  by (simp_all add: join_def finalize_execution_def patch_defs)

lemma early_B_step:
  assumes "early_B s" and "fire e s = Some (Inr s')"
  shows "(\<forall>m. e \<noteq> Resume (AwaitActivity (Some ''a'')) (Raised m)) \<and> (early_B s' \<or> succeeded_B s')
         \<or> (\<exists>m. e = Resume (AwaitActivity (Some ''a'')) (Raised m) \<and> (failing_B m s' \<or> failed_B m s'))"
proof -
  from assms(1) obtain t0 where t0: "tasks s = [t0]" "early (Some ''a'') t0"
    and m: "main s = Gathering" and ex: "executed_nodes s = []" and nf: "\<not> workflow_failed s"
    and ed: "edges s = dag_edges (dag scenario_B)"
    by (auto simp: early_B_def)
  from assms(2) m obtain oc where e: "e = Resume t0 oc"
    using t0(1) by (cases e) (auto simp: fire_def split: if_splits)
  let ?s1 = "s\<lparr>tasks := []\<rparr>"
  from assms(2) e t0(1) obtain s2 where r: "resume t0 oc ?s1 = Inr s2" and s': "s' = join s2"
    by (cases "resume t0 oc ?s1") (auto simp: fire_def)
  from t0(2) show ?thesis
  proof (cases t0)
    case (Start j)
    with t0(2) have j: "j = Some ''a''" by simp
    from r Start j nf m ex ed have "early_B s2"
      by (auto simp: execute_node_def process_node_execution_def Let_def patch_defs suspend_def dispatch_def
          early_B_def split: option.splits params.splits if_splits)
    moreover then have "join s2 = s2" by (auto simp: join_def early_B_def)
    ultimately show ?thesis using s' e Start by simp
  next
    case (AwaitExecutingPatch j n)
    with t0(2) have j: "j = Some ''a''" by simp
    from r AwaitExecutingPatch j nf m ex ed have "early_B s2"
      by (cases oc) (auto simp: suspend_def dispatch_def early_B_def)
    moreover then have "join s2 = s2" by (auto simp: join_def early_B_def)
    ultimately show ?thesis using s' e AwaitExecutingPatch by simp
  next
    case (AwaitActivity j)
    with t0(2) have j: "j = Some ''a''" by simp
    show ?thesis
    proof (cases oc)
      case (Returned res)
      have "quiet (Some ''a'') (s\<lparr>tasks := []\<rparr>)"
        using ed a_not_target_B by (simp add: quiet_def)
      then have "quiet (Some ''a'') (handle_successful_execution (Some ''a'') res (s\<lparr>tasks := []\<rparr>))"
        by (rule quiet_handle_successful_execution)
      with r AwaitActivity j Returned have q: "quiet (Some ''a'') s2" by simp
      have "edges s2 = edges s"
        using r AwaitActivity j Returned
        by (auto simp: handle_successful_execution_def Let_def patch_defs suspend_def process_child_nodes_def)
      moreover have "main s2 = Gathering"
        using main_resume [OF r] m by simp
      ultimately have "edges s2 = dag_edges (dag scenario_B) \<and> main s2 = Gathering
              \<and> (\<forall>t \<in> set (tasks s2). \<not> early (Some ''a'') t)"
        using q ed by (simp add: quiet_def)
      then have "succeeded_B s'"
        unfolding s' succeeded_B_def using join_frame [of s2] by auto
      with e AwaitActivity Returned show ?thesis by simp
    next
      case (Raised msg)
      from r AwaitActivity j Raised m ex
      have "failing_B msg s2 \<or> (tasks s2 = [] \<and> main s2 = Gathering \<and> no_execution_id s2
               \<and> executed_nodes s2 = [(Some ''a'', failed_state msg)])"
        by (auto simp: handle_failed_execution_def Let_def patch_defs suspend_def failing_B_def failed_state_def
            split: if_splits option.splits)
      then have "failing_B msg s' \<or> failed_B msg s'"
      proof
        assume f: "failing_B msg s2"
        then have "join s2 = s2" by (auto simp: join_def failing_B_def)
        with f s' show ?thesis by simp
      next
        assume "tasks s2 = [] \<and> main s2 = Gathering \<and> no_execution_id s2
               \<and> executed_nodes s2 = [(Some ''a'', failed_state msg)]"
        then have "failed_B msg (join s2)"
          by (auto simp: join_def finalize_execution_def patch_defs failed_B_def split: option.splits)
        with s' show ?thesis by simp
      qed
      with e AwaitActivity j Raised show ?thesis by simp
    qed
  qed simp_all
qed


lemma succeeded_B_step:
  assumes "succeeded_B s" and "fire e s = Some (Inr s')"
  shows "succeeded_B s' \<and> (\<forall>m. e \<noteq> Resume (AwaitActivity (Some ''a'')) (Raised m))"
proof (cases e)
  case (Resume t oc)
  with assms(2) have t: "t \<in> set (tasks s)"
    by (auto simp: fire_def split: if_splits)
  with assms(1) have ne: "\<not> early (Some ''a'') t"
    by (simp add: succeeded_B_def)
  let ?s1 = "s\<lparr>tasks := remove1 t (tasks s)\<rparr>"
  from assms(2) Resume t obtain s2 where r: "resume t oc ?s1 = Inr s2" and s': "s' = join s2"
    by (cases "resume t oc ?s1") (auto simp: fire_def)
  have "quiet (Some ''a'') ?s1"
    using assms(1) a_not_target_B by (auto simp: succeeded_B_def quiet_def dest: notin_set_remove1)
  from quiet_resume [OF r ne this] have q: "quiet (Some ''a'') s2" .
  have e2: "edges s2 = edges s"
    using r
    by (cases "(t, oc, ?s1)" rule: resume.cases)
       (auto simp: execute_node_def handle_skipped_node_def process_node_execution_def Let_def patch_defs
          suspend_def dispatch_def handle_successful_execution_def handle_failed_execution_def
          process_child_nodes_def split: if_splits option.splits params.splits)
  have m2: "main s2 = main s"
    using main_resume [OF r] by simp
  have "succeeded_B s'"
    unfolding s' succeeded_B_def
    using q e2 m2 assms(1) join_frame [of s2] by (auto simp: succeeded_B_def quiet_def)
  moreover have "\<forall>m. e \<noteq> Resume (AwaitActivity (Some ''a'')) (Raised m)"
    using Resume ne by auto
  ultimately show ?thesis by simp
next
  case (MainPatch oc)
  with assms show ?thesis
    by (auto simp: fire_def succeeded_B_def split: main_phase.splits outcome.splits)
qed (use assms in \<open>auto simp: fire_def succeeded_B_def split: main_phase.splits\<close>)

lemma failing_B_step:
  assumes "failing_B msg s" and "fire e s = Some (Inr s')"
  shows "failed_B msg s' \<and> (\<forall>m. e \<noteq> Resume (AwaitActivity (Some ''a'')) (Raised m))"
proof (cases e)
  case (Resume t oc)
  with assms have t: "t = AwaitFailedPatch (Some ''a'')"
    by (auto simp: fire_def failing_B_def split: if_splits)
  from assms Resume t obtain r where oc: "oc = Returned r"
    by (cases oc) (auto simp: fire_def failing_B_def)
  from assms Resume t oc have "s' = join (s\<lparr>tasks := [], workflow_failed := True\<rparr>)"
    by (auto simp: fire_def failing_B_def)
  with assms(1) have "failed_B msg s'"
    by (auto simp: failing_B_def failed_B_def join_def finalize_execution_def determine_final_status_def
        failed_state_def status_patch_def patch_defs split: option.splits)
  with Resume t show ?thesis by simp
qed (use assms in \<open>auto simp: fire_def failing_B_def split: main_phase.splits\<close>)

lemma failed_B_step:
  assumes "failed_B msg s" and "fire e s = Some (Inr s')"
  shows "failed_B msg s' \<and> (\<forall>m. e \<noteq> Resume (AwaitActivity (Some ''a'')) (Raised m))"
proof (cases e)
  case (MainPatch oc)
  with assms show ?thesis
    by (auto simp: fire_def failed_B_def no_execution_id_def split: main_phase.splits outcome.splits)
qed (use assms in \<open>auto simp: fire_def failed_B_def split: main_phase.splits\<close>)

lemma inv_B_step:
  assumes "inv_B es s" and f: "fire e s = Some (Inr s')"
  shows "inv_B (es @ [e]) s'"
proof -
  let ?E = "\<lambda>m. Resume (AwaitActivity (Some ''a'')) (Raised m)"
  from assms(1) consider
      (pre) "pre_B s" "\<forall>m. ?E m \<notin> set es"
    | (early) "early_B s" "\<forall>m. ?E m \<notin> set es"
    | (succeeded) "succeeded_B s" "\<forall>m. ?E m \<notin> set es"
    | (failing) msg where "failing_B msg s" "\<forall>m. ?E m \<in> set es \<longrightarrow> m = msg"
    | (failed) msg where "failed_B msg s" "\<forall>m. ?E m \<in> set es \<longrightarrow> m = msg"
    unfolding inv_B_def by blast
  then show ?thesis
  proof cases
    case pre
    from pre_B_step [OF pre(1) f] pre(2) show ?thesis
      unfolding inv_B_def by auto
  next
    case early
    from early_B_step [OF early(1) f]
    show ?thesis
    proof
      assume "(\<forall>m. e \<noteq> ?E m) \<and> (early_B s' \<or> succeeded_B s')"
      with early(2) show ?thesis unfolding inv_B_def by auto
    next
      assume "\<exists>m. e = ?E m \<and> (failing_B m s' \<or> failed_B m s')"
      then obtain m where "e = ?E m" "failing_B m s' \<or> failed_B m s'" by blast
      with early(2) have "(failing_B m s' \<or> failed_B m s')
            \<and> (\<forall>m'. ?E m' \<in> set (es @ [e]) \<longrightarrow> m' = m)"
        by auto
      then show ?thesis unfolding inv_B_def by blast
    qed
  next
    case succeeded
    from succeeded_B_step [OF succeeded(1) f] succeeded(2) show ?thesis
      unfolding inv_B_def by auto
  next
    case failing
    from failing_B_step [OF failing(1) f] failing(2)
    have "failed_B msg s' \<and> (\<forall>m'. ?E m' \<in> set (es @ [e]) \<longrightarrow> m' = msg)"
      by auto
    then show ?thesis unfolding inv_B_def by blast
  next
    case failed
    from failed_B_step [OF failed(1) f] failed(2)
    have "failed_B msg s' \<and> (\<forall>m'. ?E m' \<in> set (es @ [e]) \<longrightarrow> m' = msg)"
      by auto
    then show ?thesis unfolding inv_B_def by blast
  qed
qed

lemma inv_B_run: "fires es (run scenario_B) = Some (Inr s) \<Longrightarrow> inv_B es s"
proof (induction es arbitrary: s rule: rev_induct)
  case Nil
  then have "s = run scenario_B" by simp
  then show ?case by (simp add: inv_B_def pre_B_def run_def Generator_init_def)
next
  case (snoc e es)
  from fires_snoc [OF snoc.prems] obtain s1
    where "fires es (run scenario_B) = Some (Inr s1)" and "fire e s1 = Some (Inr s)" by blast
  with snoc.IH show ?case by (blast intro: inv_B_step)
qed

text \<open>
  C1, amended: in every finished run of the graph with nodes \<open>a\<close>, \<open>b\<close>, \<open>c\<close> and edges
  \<open>a \<rightarrow> b\<close>, \<open>a \<rightarrow> c\<close> in which the operation of \<open>a\<close> raises, whatever the schedule and the
  answers of the collaborators, the result map has the single entry \<open>a\<close>, FAILED with the
  error message; \<open>b\<close> and \<open>c\<close> have no entry. The final status is FAILED and, with an
  execution id, it is the last patch sent.
\<close>

theorem scenario_B_failure:
  assumes "fires es (run scenario_B) = Some (Inr s)"
    and "main s = Finished"
    and "Resume (AwaitActivity (Some ''a'')) (Raised msg) \<in> set es"
  shows "executed_nodes s =
           [(Some ''a'', \<lparr>status = FAILED, node_output = JObject [(''error'', JString msg)]\<rparr>)]
         \<and> determine_final_status s = FAILED
         \<and> (no_execution_id s
             \<or> last (patch_calls s) =
                 (execution_id s,
                  [\<lparr>patch_op = ''replace'', path = ''/status'', patch_value = JString ''FAILED''\<rparr>],
                  user_id s))"
proof -
  from inv_B_run [OF assms(1)] assms(3) obtain m where
    "failing_B m s \<or> failed_B m s" and "msg = m"
    unfolding inv_B_def by blast
  with assms(2) have "failed_B msg s"
    by (auto simp: failing_B_def)
  then show ?thesis
    by (auto simp: failed_B_def failed_state_def determine_final_status_def status_patch_def)
qed

theorem scenario_B_failure_witness:
  "fires schedule_B (run scenario_B) = Some (Inr (final_state schedule_B (run scenario_B)))
   \<and> main (final_state schedule_B (run scenario_B)) = Finished
   \<and> Resume (AwaitActivity (Some ''a'')) (Raised ''boom'') \<in> set schedule_B
   \<and> executed_nodes (final_state schedule_B (run scenario_B)) =
       [(Some ''a'', \<lparr>status = FAILED, node_output = JObject [(''error'', JString ''boom'')]\<rparr>)]
   \<and> determine_final_status (final_state schedule_B (run scenario_B)) = FAILED"
proof -
  have 1: "fires schedule_B (run scenario_B) = Some (Inr (final_state schedule_B (run scenario_B)))"
    by code_simp
  have 2: "main (final_state schedule_B (run scenario_B)) = Finished"
    by code_simp
  have 3: "Resume (AwaitActivity (Some ''a'')) (Raised ''boom'') \<in> set schedule_B"
    by (simp add: schedule_B_def)
  show ?thesis
    using 1 2 3 scenario_B_failure [OF 1 2 3] by simp
qed

text \<open>
  The claim as stated fails: in the finished run of scenario B where \<open>a\<close> raises, \<open>a\<close> is
  FAILED and neither \<open>b\<close> nor \<open>c\<close> is recorded, so neither is SKIPPED.
\<close>

theorem scenario_B_counterexample:
  "summary (fires schedule_B (run scenario_B)) = Some (Inr (Finished, [(Some ''a'', FAILED)], [Some ''a'']))
   \<and> map_of (executed_nodes (final_state schedule_B (run scenario_B))) (Some ''b'') = None
   \<and> map_of (executed_nodes (final_state schedule_B (run scenario_B))) (Some ''c'') = None"
  by code_simp

section \<open>A node with two parents\<close>

text \<open>
  C8: in the diamond, when the operations of \<open>b\<close> and \<open>c\<close> have both returned before either
  SUCCESS patch is acknowledged, each of \<open>b\<close> and \<open>c\<close> finds every dependency of \<open>d\<close>
  recorded and launches \<open>d\<close>: the operation of \<open>d\<close> is dispatched twice in one run.
\<close>

theorem diamond_dispatches_d_twice:
  "summary (fires diamond_schedule (run diamond))
     = Some (Inr (Finished,
                  [(Some ''a'', SUCCESS), (Some ''b'', SUCCESS), (Some ''c'', SUCCESS), (Some ''d'', SUCCESS)],
                  [Some ''a'', Some ''b'', Some ''c'', Some ''d'', Some ''d'']))"
  by code_simp

end
